theory Spec2Isabelle
  imports Main
begin

section \<open>Python values kept in the installer's state\<close>

text \<open>
  The classes of \<^verbatim>\<open>portablemc/fabric.py\<close>: a \<^verbatim>\<open>FabricApi\<close> holds a name and
  the base URL of its REST API, a \<^verbatim>\<open>FabricRoot\<close> the version that is asked for (the
  loader version is optional), a \<^verbatim>\<open>FabricRepository\<close> what \<^verbatim>\<open>FabricInitTask\<close>
  registers for the synthesized version.
\<close>

record FabricApi =
  name :: string
  api_url :: string

definition FABRIC_API :: FabricApi where
  "FABRIC_API = \<lparr>name = ''fabric'', api_url = ''https://meta.fabricmc.net/v2/''\<rparr>"

definition QUILT_API :: FabricApi where
  "QUILT_API = \<lparr>name = ''quilt'', api_url = ''https://meta.quiltmc.org/v3/''\<rparr>"

record FabricRoot =
  api :: FabricApi
  prefix :: string
  vanilla_version :: string
  loader_version :: "string option"

record FabricRepository =
  repo_api :: FabricApi
  repo_version_id :: string
  repo_vanilla_version :: string
  repo_loader_version :: "string option"

text \<open>
  The classes used as keys of the state. \<^verbatim>\<open>OtherT n\<close> stands for any further class,
  \<^verbatim>\<open>NoneType\<close> is the class of Python's \<^verbatim>\<open>None\<close>.
\<close>

datatype pytype = NoneType | FabricRootT | MetadataRootT | VersionRepositoriesT | OtherT nat

text \<open>
  The instances. \<^verbatim>\<open>MetadataRoot\<close> and \<^verbatim>\<open>VersionRepositories\<close> belong to
  \<^verbatim>\<open>portablemc/vanilla.py\<close>, which is not among the sources at hand.

  Modelled from the spec: \<^verbatim>\<open>MetadataRoot(version_id)\<close> carries the identifier of
  the root version, and \<^verbatim>\<open>VersionRepositories\<close> is a registry from version identifier
  to the repository that overrides the generic fetch of that identifier.
  An instance of any other class is \<^verbatim>\<open>OtherV n payload\<close>.
\<close>

datatype obj =
    NoneV
  | FabricRootV FabricRoot
  | MetadataRootV string
  | VersionRepositoriesV "string \<rightharpoonup> FabricRepository"
  | OtherV nat nat

fun type_of :: "obj \<Rightarrow> pytype" where
  "type_of NoneV = NoneType"
| "type_of (FabricRootV r) = FabricRootT"
| "type_of (MetadataRootV i) = MetadataRootT"
| "type_of (VersionRepositoriesV m) = VersionRepositoriesT"
| "type_of (OtherV n p) = OtherT n"

datatype error =
    KeyError
  | TypeError
  | AttributeError
  | IndexError
  | NotImplementedError
  | TaskError nat
  | HttpError nat

section \<open>State (\<^verbatim>\<open>portablemc/task.py\<close>)\<close>

text \<open>The two dictionary reads of Python: \<^verbatim>\<open>d.get(k)\<close> and \<^verbatim>\<open>d[k]\<close>.\<close>

definition dict_get :: "('k \<rightharpoonup> obj) \<Rightarrow> 'k \<Rightarrow> obj" where
  "dict_get d k = (case d k of None \<Rightarrow> NoneV | Some v \<Rightarrow> v)"

definition dict_getitem :: "('k \<rightharpoonup> obj) \<Rightarrow> 'k \<Rightarrow> error + obj" where
  "dict_getitem d k = (case d k of None \<Rightarrow> Inl KeyError | Some v \<Rightarrow> Inr v)"

record State =
  data :: "pytype \<rightharpoonup> obj"

definition State_init :: State where
  "State_init = \<lparr>data = Map.empty\<rparr>"

definition State_clear :: "State \<Rightarrow> State" where
  "State_clear s = s\<lparr>data := Map.empty\<rparr>"

text \<open>
  Every method returns either an error (what it raises) or its value; \<^verbatim>\<open>get\<close> has
  no raising path.
\<close>

definition State_get :: "State \<Rightarrow> pytype \<Rightarrow> error + obj" where
  "State_get s ty = Inr (dict_get (data s) ty)"

definition State_insert :: "State \<Rightarrow> obj \<Rightarrow> State" where
  "State_insert s v = s\<lparr>data := (data s)(type_of v \<mapsto> v)\<rparr>"

definition State_contains :: "State \<Rightarrow> pytype \<Rightarrow> bool" where
  "State_contains s ty = (ty \<in> dom (data s))"

definition State_getitem :: "State \<Rightarrow> pytype \<Rightarrow> error + obj" where
  "State_getitem s ty = dict_getitem (data s) ty"

section \<open>Events and watchers\<close>

text \<open>
  Events are plain objects handed to \<^verbatim>\<open>Watcher.on_event\<close>. \<^verbatim>\<open>FabricResolveEvent\<close>
  is defined in \<^verbatim>\<open>fabric.py\<close>; the three download events come from
  \<^verbatim>\<open>portablemc/download.py\<close> (not among the sources at hand) and carry the fields
  that \<^verbatim>\<open>DownloadWatcher.on_event\<close> reads: \<^verbatim>\<open>entries_count\<close>, \<^verbatim>\<open>size\<close>,
  \<^verbatim>\<open>threads_count\<close> for the start, \<^verbatim>\<open>thread_id\<close>, \<^verbatim>\<open>size\<close>, \<^verbatim>\<open>count\<close>,
  \<^verbatim>\<open>speed\<close> for a progress report. The type \<open>'f\<close> is the type of speeds (Python's
  float); only its zero and its addition are used.
\<close>

datatype 'f event =
    FabricResolveEvent FabricApi string "string option"
  | DownloadStartEvent (ev_entries_count: int) (ev_size: int) (ev_threads_count: int)
  | is_progress: DownloadProgressEvent (ev_thread_id: int) (ev_size: int) (ev_count: int)
      (ev_speed: 'f)
  | DownloadCompleteEvent
  | OtherEvent nat

text \<open>
  A call \<^verbatim>\<open>watcher.on_event(...)\<close> is modelled by what it raises, given the list of
  positional arguments. The base class of \<^verbatim>\<open>task.py\<close> declares
  \<^verbatim>\<open>def on_event(self) -> None\<close>, with no parameter for the event, so that a call
  with an argument raises \<^verbatim>\<open>TypeError\<close>; the watchers of the command line
  (\<^verbatim>\<open>cli/__init__.py\<close>) declare \<^verbatim>\<open>def on_event(self, event: Any)\<close>.
\<close>

type_synonym 'f on_event = "'f event list \<Rightarrow> error option"

definition Watcher_on_event :: "'f on_event" where
  "Watcher_on_event args = (if args = [] then None else Some TypeError)"

definition on_event_with_event :: "'f on_event" where
  "on_event_with_event args = (if length args = 1 then None else Some TypeError)"

section \<open>FabricInitTask (\<^verbatim>\<open>portablemc/fabric.py\<close>)\<close>

text \<open>
  \<^verbatim>\<open>http_request\<close> belongs to \<^verbatim>\<open>portablemc/http.py\<close>, which is not among the
  sources at hand; it is a parameter here. \<open>http url\<close> stands for the GET of
  \<^verbatim>\<open>url\<close>, its \<^verbatim>\<open>.json()\<close> and the reading
  \<^verbatim>\<open>[0].get("loader", {}).get("version")\<close> of the answer: an error when any of
  them raises, else the version string, \<^verbatim>\<open>None\<close> when the field is missing.
\<close>

type_synonym http = "string \<Rightarrow> error + string option"

definition request_fabric_loader_version ::
  "http \<Rightarrow> FabricApi \<Rightarrow> string \<Rightarrow> error + string option" where
  "request_fabric_loader_version http a vanilla =
     http (api_url a @ ''versions/loader/'' @ vanilla)"

text \<open>What an f-string prints for a value that is a string or \<^verbatim>\<open>None\<close>.\<close>

fun py_format :: "string option \<Rightarrow> string" where
  "py_format None = ''None''"
| "py_format (Some s) = s"

definition FabricRepository_init ::
  "FabricApi \<Rightarrow> string \<Rightarrow> string \<Rightarrow> string option \<Rightarrow> FabricRepository" where
  "FabricRepository_init a version_id vanilla loader =
     \<lparr>repo_api = a, repo_version_id = version_id,
      repo_vanilla_version = vanilla, repo_loader_version = loader\<rparr>"

text \<open>
  Modelled from the spec: \<^verbatim>\<open>VersionRepositories.insert(version_id, repository)\<close>
  (of \<^verbatim>\<open>portablemc/vanilla.py\<close>) registers the repository under the identifier.
\<close>

definition VersionRepositories_insert ::
  "(string \<rightharpoonup> FabricRepository) \<Rightarrow> string \<Rightarrow> FabricRepository
     \<Rightarrow> (string \<rightharpoonup> FabricRepository)" where
  "VersionRepositories_insert reg version_id repo = reg(version_id \<mapsto> repo)"

text \<open>
  \<^verbatim>\<open>FabricInitTask.execute(state, watcher)\<close>. The result is the state as the call
  leaves it, the events handed to \<^verbatim>\<open>watcher.on_event\<close> in order, and the error
  raised, if any. The repositories object is updated in place, under the key it was
  read from. An attribute read on an object of another class than the expected one
  raises \<^verbatim>\<open>AttributeError\<close>.
\<close>

definition FabricInitTask_execute ::
  "http \<Rightarrow> 'f on_event \<Rightarrow> State \<Rightarrow> State \<times> 'f event list \<times> error option" where
  "FabricInitTask_execute http on_event s =
    (case State_get s FabricRootT of
       Inl e \<Rightarrow> (s, [], Some e)
     | Inr NoneV \<Rightarrow> (s, [], None)
     | Inr (FabricRootV root) \<Rightarrow>
        (let vanilla = vanilla_version root;
             (evs, resolved) =
               (case loader_version root of
                  Some l \<Rightarrow> ([], Inr (Some l))
                | None \<Rightarrow>
                   (let ev = FabricResolveEvent (api root) vanilla None in
                    ([ev],
                     case on_event [ev] of
                       Some e \<Rightarrow> Inl e
                     | None \<Rightarrow> request_fabric_loader_version http (api root) vanilla)))
         in case resolved of
              Inl e \<Rightarrow> (s, evs, Some e)
            | Inr loader \<Rightarrow>
               (let ev = FabricResolveEvent (api root) vanilla loader in
                case on_event [ev] of
                  Some e \<Rightarrow> (s, evs @ [ev], Some e)
                | None \<Rightarrow>
                   (let version_id = prefix root @ ''-'' @ vanilla @ ''-'' @ py_format loader;
                        s1 = State_insert s (MetadataRootV version_id)
                    in case State_getitem s1 VersionRepositoriesT of
                         Inl e \<Rightarrow> (s1, evs @ [ev], Some e)
                       | Inr (VersionRepositoriesV reg) \<Rightarrow>
                           (s1\<lparr>data := (data s1)(VersionRepositoriesT \<mapsto>
                               VersionRepositoriesV (VersionRepositories_insert reg version_id
                                 (FabricRepository_init (api root) version_id vanilla loader)))\<rparr>,
                            evs @ [ev], None)
                       | Inr _ \<Rightarrow> (s1, evs @ [ev], Some AttributeError))))
     | Inr _ \<Rightarrow> (s, [], Some AttributeError))"

text \<open>States and collaborators used as concrete inputs.\<close>

definition root_1_20_1 :: FabricRoot where
  "root_1_20_1 = \<lparr>api = FABRIC_API, prefix = ''fabric'', vanilla_version = ''1.20.1'',
                  loader_version = Some ''0.14.21''\<rparr>"

definition root_latest :: FabricRoot where
  "root_latest = \<lparr>api = QUILT_API, prefix = ''quilt'', vanilla_version = ''1.20.1'',
                  loader_version = None\<rparr>"

definition http_fixed :: http where
  "http_fixed url =
     (if url = ''https://meta.quiltmc.org/v3/versions/loader/1.20.1''
      then Inr (Some ''0.20.0'') else Inl (HttpError 404))"

definition state_root_only :: State where
  "state_root_only = State_insert State_init (FabricRootV root_1_20_1)"

definition state_ready :: "FabricRoot \<Rightarrow> State" where
  "state_ready root =
     State_insert (State_insert State_init (VersionRepositoriesV Map.empty)) (FabricRootV root)"

section \<open>DownloadWatcher (\<^verbatim>\<open>portablemc/cli/__init__.py\<close>)\<close>

text \<open>
  The calls made on the \<^verbatim>\<open>Output\<close> object (\<^verbatim>\<open>portablemc/cli/output.py\<close>, not
  among the sources at hand), in order: \<^verbatim>\<open>out.task("..", "download.start")\<close>,
  \<^verbatim>\<open>out.task("..", "download.progress", speed, count, total_count, size)\<close>,
  \<^verbatim>\<open>out.task("OK", None)\<close> and \<^verbatim>\<open>out.finish()\<close>. The progress call is kept with
  the numbers it is given, before \<^verbatim>\<open>format_number\<close> turns them into text.
\<close>

datatype 'f out_call =
    Task_download_start
  | Task_download_progress (out_speed: 'f) (out_count: int) (out_total_count: int)
      (out_size: int)
  | Task_ok
  | Finish

text \<open>
  The constructor only annotates the four attributes; they exist once a
  \<^verbatim>\<open>DownloadStartEvent\<close> has set them, and a read before that raises
  \<^verbatim>\<open>AttributeError\<close>.
\<close>

record 'f DownloadWatcher =
  dw_out :: "'f out_call list"
  dw_entries_count :: "int option"
  dw_total_size :: "int option"
  dw_size :: "int option"
  dw_speeds :: "'f list option"

definition DownloadWatcher_init :: "'f DownloadWatcher" where
  "DownloadWatcher_init =
     \<lparr>dw_out = [], dw_entries_count = None, dw_total_size = None, dw_size = None,
      dw_speeds = None\<rparr>"

text \<open>
  \<^verbatim>\<open>xs[i] = v\<close> on a Python list: a negative index counts from the end, an index out
  of range raises \<^verbatim>\<open>IndexError\<close>.
\<close>

definition list_setitem :: "'a list \<Rightarrow> int \<Rightarrow> 'a \<Rightarrow> error + 'a list" where
  "list_setitem xs i v =
     (let n = int (length xs); j = (if i < 0 then i + n else i)
      in if 0 \<le> j \<and> j < n then Inr (xs[nat j := v]) else Inl IndexError)"

text \<open>\<^verbatim>\<open>sum(xs)\<close>: the elements are added from the left, starting from zero.\<close>

definition py_sum :: "'f::{zero,plus} list \<Rightarrow> 'f" where
  "py_sum xs = foldl (+) 0 xs"

fun DownloadWatcher_on_event ::
  "'f::{zero,plus} DownloadWatcher \<Rightarrow> 'f event \<Rightarrow> 'f DownloadWatcher \<times> error option" where
  "DownloadWatcher_on_event w (DownloadStartEvent entries_count total_size threads_count) =
     (w\<lparr>dw_entries_count := Some entries_count,
        dw_total_size := Some total_size,
        dw_size := Some 0,
        dw_speeds := Some (replicate (nat threads_count) 0),
        dw_out := dw_out w @ [Task_download_start]\<rparr>, None)"
| "DownloadWatcher_on_event w (DownloadProgressEvent thread_id bytes count speed) =
     (case dw_speeds w of
        None \<Rightarrow> (w, Some AttributeError)
      | Some speeds \<Rightarrow>
         (case list_setitem speeds thread_id speed of
            Inl e \<Rightarrow> (w, Some e)
          | Inr speeds' \<Rightarrow>
             (let w1 = w\<lparr>dw_speeds := Some speeds'\<rparr>;
                  speed_sum = py_sum speeds'
              in case dw_size w1 of
                   None \<Rightarrow> (w1, Some AttributeError)
                 | Some sz \<Rightarrow>
                    (let w2 = w1\<lparr>dw_size := Some (sz + bytes)\<rparr>
                     in case dw_entries_count w2 of
                          None \<Rightarrow> (w2, Some AttributeError)
                        | Some n \<Rightarrow>
                           (w2\<lparr>dw_out := dw_out w2 @
                               [Task_download_progress speed_sum count n (sz + bytes)]\<rparr>,
                            None)))))"
| "DownloadWatcher_on_event w DownloadCompleteEvent =
     (w\<lparr>dw_out := dw_out w @ [Task_ok, Finish]\<rparr>, None)"
| "DownloadWatcher_on_event w _ = (w, None)"

text \<open>The events of a run reach the watcher one after the other, up to the first error.\<close>

fun DownloadWatcher_run ::
  "'f::{zero,plus} DownloadWatcher \<Rightarrow> 'f event list \<Rightarrow> 'f DownloadWatcher \<times> error option" where
  "DownloadWatcher_run w [] = (w, None)"
| "DownloadWatcher_run w (e # es) =
     (case DownloadWatcher_on_event w e of
        (w', Some err) \<Rightarrow> (w', Some err)
      | (w', None) \<Rightarrow> DownloadWatcher_run w' es)"

text \<open>
  What the aggregator is expected to report, in the words of the specification: the
  latest speed that worker \<open>k\<close> has reported among the progress events \<open>evs\<close> (zero
  when it has reported none), the bytes received in all of them, and the report after
  the progress events \<open>evs\<close>, the last of which is the current one: the sum over the
  \<open>W\<close> workers of their latest speeds, and the bytes received so far.
\<close>

definition latest_speed :: "'f::zero event list \<Rightarrow> nat \<Rightarrow> 'f" where
  "latest_speed evs k =
     (let reports = filter (\<lambda>e. is_progress e \<and> ev_thread_id e = int k) evs
      in if reports = [] then 0 else ev_speed (last reports))"

definition received_size :: "'f event list \<Rightarrow> int" where
  "received_size evs = sum_list (map ev_size evs)"

definition expected_report :: "int \<Rightarrow> int \<Rightarrow> 'f::{zero,plus} event list \<Rightarrow> 'f out_call" where
  "expected_report W n evs =
     Task_download_progress
       (py_sum (map (latest_speed evs) [0..<nat W]))
       (ev_count (last evs)) n (received_size evs)"

definition progress_of_workers :: "int \<Rightarrow> 'f event list \<Rightarrow> bool" where
  "progress_of_workers W evs =
     list_all (\<lambda>e. is_progress e \<and> 0 \<le> ev_thread_id e \<and> ev_thread_id e < W) evs"

definition progress_example :: "int event list" where
  "progress_example =
     [DownloadProgressEvent 0 10 1 100, DownloadProgressEvent 1 20 1 250,
      DownloadProgressEvent 0 5 2 70]"

section \<open>Task, Watcher and Installer (\<^verbatim>\<open>portablemc/task.py\<close>)\<close>

text \<open>
  A task is an object of some class; \<^verbatim>\<open>type(task) is after\<close> compares the class,
  and the same object may stand several times in the list of an installer.
  \<^verbatim>\<open>MetadataTask\<close> is the class of \<^verbatim>\<open>vanilla.py\<close> that \<^verbatim>\<open>add_fabric_tasks\<close>
  names as anchor; \<^verbatim>\<open>OtherTaskT n\<close> stands for any further subclass.
\<close>

datatype task_type = TaskT | FabricInitTaskT | MetadataTaskT | OtherTaskT nat

record task =
  task_type :: task_type
  task_id :: nat

text \<open>
  The methods of a task are found through its class. \<^verbatim>\<open>setup\<close> is a state
  transformer (the one of the base class does nothing). An \<^verbatim>\<open>execute\<close> method is
  declared either as \<^verbatim>\<open>execute(self, state)\<close>, as \<^verbatim>\<open>Task.execute\<close> in
  \<^verbatim>\<open>task.py\<close>, or as \<^verbatim>\<open>execute(self, state, watcher)\<close>, as
  \<^verbatim>\<open>FabricInitTask.execute\<close> in \<^verbatim>\<open>fabric.py\<close>. It leaves a state and may raise.
\<close>

type_synonym setup_method = "task \<Rightarrow> State \<Rightarrow> State"

datatype 'f execute_method =
    Execute_state "State \<Rightarrow> State \<times> error option"
  | Execute_state_watcher "'f on_event \<Rightarrow> State \<Rightarrow> State \<times> 'f event list \<times> error option"

definition Task_setup :: "State \<Rightarrow> State" where
  "Task_setup s = s"

definition Task_execute :: "State \<Rightarrow> State \<times> error option" where
  "Task_execute s = (s, Some NotImplementedError)"

text \<open>
  The call \<^verbatim>\<open>task.execute(self._state)\<close> of \<^verbatim>\<open>Installer.install\<close>: one positional
  argument. On a method that requires the watcher as well, Python raises
  \<^verbatim>\<open>TypeError\<close> before the body runs.
\<close>

definition call_execute :: "'f execute_method \<Rightarrow> State \<Rightarrow> State \<times> error option" where
  "call_execute m s =
     (case m of
        Execute_state f \<Rightarrow> f s
      | Execute_state_watcher g \<Rightarrow> (s, Some TypeError))"

text \<open>
  The methods of the classes at hand: \<^verbatim>\<open>FabricInitTask\<close> overrides \<^verbatim>\<open>execute\<close>
  and inherits \<^verbatim>\<open>setup\<close>; every other class is given the methods of the base class.
\<close>

definition portablemc_setup :: setup_method where
  "portablemc_setup t = Task_setup"

definition portablemc_execute :: "http \<Rightarrow> task \<Rightarrow> 'f execute_method" where
  "portablemc_execute http t =
     (case task_type t of
        FabricInitTaskT \<Rightarrow> Execute_state_watcher (FabricInitTask_execute http)
      | _ \<Rightarrow> Execute_state Task_execute)"

text \<open>
  The installer. Its watchers are a Python \<^verbatim>\<open>set\<close>. How the interpreter iterates
  a set is its own matter and may depend on the order in which the elements were
  added; the record therefore keeps the watchers in the order in which they were
  first added (adding a watcher that is already there changes nothing), and the
  iteration order is a function of that list, given where the set is iterated.
  Only additions are modelled. \<open>'w\<close> is the type of watcher objects.
\<close>

record 'w Installer =
  tasks :: "task list"
  state :: State
  watchers :: "'w list"

definition Installer_init :: "'w Installer" where
  "Installer_init = \<lparr>tasks = [], state = State_init, watchers = []\<rparr>"

text \<open>
  \<^verbatim>\<open>xs.insert(i, x)\<close> on a Python list: an index beyond the end appends, a negative
  index counts from the end and stops at the front.
\<close>

definition list_insert :: "'a list \<Rightarrow> int \<Rightarrow> 'a \<Rightarrow> 'a list" where
  "list_insert xs i x =
     (let n = int (length xs); j = (if i < 0 then max 0 (i + n) else min i n)
      in take (nat j) xs @ x # drop (nat j) xs)"

definition insert_task :: "setup_method \<Rightarrow> task \<Rightarrow> int \<Rightarrow> 'w Installer \<Rightarrow> 'w Installer" where
  "insert_task setup_of t index inst =
     inst\<lparr>tasks := list_insert (tasks inst) index t, state := setup_of t (state inst)\<rparr>"

text \<open>
  The loop of \<^verbatim>\<open>append_task\<close>:
  \<^verbatim>\<open>for i, task in enumerate(self._tasks): if type(task) is after: self.insert_task(task, i + 1)\<close>.
  The loop variable is named \<^verbatim>\<open>task\<close>, as the parameter is, so the loop rebinds it;
  the list iterator reads position \<open>i\<close> of the list as it is at that moment, and
  stops when \<open>i\<close> has reached its length. The loop returns the last binding of
  \<^verbatim>\<open>task\<close> and the installer; a loop that does not end has no result (\<open>None\<close>).
\<close>

partial_function (option) append_task_loop ::
  "setup_method \<Rightarrow> task_type \<Rightarrow> nat \<Rightarrow> task \<Rightarrow> 'w Installer \<Rightarrow> (task \<times> 'w Installer) option" where
  [code]: "append_task_loop setup_of after i t inst =
     (if i < length (tasks inst)
      then append_task_loop setup_of after (Suc i) (tasks inst ! i)
             (if task_type (tasks inst ! i) = after
              then insert_task setup_of (tasks inst ! i) (int i + 1) inst
              else inst)
      else Some (t, inst))"

definition append_task ::
  "setup_method \<Rightarrow> task \<Rightarrow> task_type option \<Rightarrow> 'w Installer \<Rightarrow> 'w Installer option" where
  "append_task setup_of t after inst =
     (case after of
        None \<Rightarrow> Some (insert_task setup_of t (int (length (tasks inst))) inst)
      | Some a \<Rightarrow>
         (case append_task_loop setup_of a 0 t inst of
            None \<Rightarrow> None
          | Some (t', inst') \<Rightarrow>
              Some (insert_task setup_of t' (int (length (tasks inst'))) inst')))"

text \<open>
  The loop of \<^verbatim>\<open>prepend_task\<close>, the same with \<^verbatim>\<open>self.insert_task(task, i)\<close>.
\<close>

partial_function (option) prepend_task_loop ::
  "setup_method \<Rightarrow> task_type \<Rightarrow> nat \<Rightarrow> task \<Rightarrow> 'w Installer \<Rightarrow> (task \<times> 'w Installer) option" where
  [code]: "prepend_task_loop setup_of before i t inst =
     (if i < length (tasks inst)
      then prepend_task_loop setup_of before (Suc i) (tasks inst ! i)
             (if task_type (tasks inst ! i) = before
              then insert_task setup_of (tasks inst ! i) (int i) inst
              else inst)
      else Some (t, inst))"

definition prepend_task ::
  "setup_method \<Rightarrow> task \<Rightarrow> task_type option \<Rightarrow> 'w Installer \<Rightarrow> 'w Installer option" where
  "prepend_task setup_of t before inst =
     (case before of
        None \<Rightarrow> Some (insert_task setup_of t 0 inst)
      | Some b \<Rightarrow>
         (case prepend_task_loop setup_of b 0 t inst of
            None \<Rightarrow> None
          | Some (t', inst') \<Rightarrow> Some (insert_task setup_of t' 0 inst')))"


definition reset :: "setup_method \<Rightarrow> 'w Installer \<Rightarrow> 'w Installer" where
  "reset setup_of inst =
     inst\<lparr>state := foldl (\<lambda>s t. setup_of t s) (State_clear (state inst)) (tasks inst)\<rparr>"

text \<open>
  What a run of \<^verbatim>\<open>install\<close> does, in order: a call of \<^verbatim>\<open>on_task_begin\<close> or
  \<^verbatim>\<open>on_task_end\<close> on a watcher, or a call of \<^verbatim>\<open>execute\<close> on a task. The two hooks
  of the base class do nothing; a hook is taken to return.
\<close>

datatype 'w notification =
    On_task_begin 'w task
  | Execute task
  | On_task_end 'w task

definition notify_begin :: "'w list \<Rightarrow> task \<Rightarrow> 'w notification list" where
  "notify_begin ws t = map (\<lambda>w. On_task_begin w t) ws"

definition notify_end :: "'w list \<Rightarrow> task \<Rightarrow> 'w notification list" where
  "notify_end ws t = map (\<lambda>w. On_task_end w t) ws"

text \<open>
  The notifications of a task that completes, and of a task whose \<^verbatim>\<open>execute\<close>
  raises.
\<close>

definition completed_task :: "'w list \<Rightarrow> task \<Rightarrow> 'w notification list" where
  "completed_task ws t = notify_begin ws t @ Execute t # notify_end ws t"

definition failed_task :: "'w list \<Rightarrow> task \<Rightarrow> 'w notification list" where
  "failed_task ws t = notify_begin ws t @ [Execute t]"

text \<open>
  \<^verbatim>\<open>Installer.install\<close> over the tasks \<open>ts\<close> that remain, with \<open>ws\<close> the watchers in
  the order in which \<^verbatim>\<open>for watcher in self._watchers\<close> yields them. An error raised
  by \<^verbatim>\<open>execute\<close> is not caught: the run ends there, with the state as the task left
  it.
\<close>

fun install_tasks ::
  "(task \<Rightarrow> 'f execute_method) \<Rightarrow> 'w list \<Rightarrow> task list \<Rightarrow> State
     \<Rightarrow> 'w notification list \<times> State \<times> error option" where
  "install_tasks ex ws [] s = ([], s, None)"
| "install_tasks ex ws (t # ts) s =
     (case call_execute (ex t) s of
        (s', Some e) \<Rightarrow> (notify_begin ws t @ [Execute t], s', Some e)
      | (s', None) \<Rightarrow>
         (case install_tasks ex ws ts s' of
            (tr, s'', r) \<Rightarrow>
              (notify_begin ws t @ [Execute t] @ notify_end ws t @ tr, s'', r)))"

text \<open>
  The order in which a Python set yields its elements is a matter of the interpreter:
  \<open>iter\<close> gives it, from the watchers in the order of their addition. The set is
  iterated anew at every boundary, and is not changed by the run.
\<close>

definition install ::
  "('w list \<Rightarrow> 'w list) \<Rightarrow> (task \<Rightarrow> 'f execute_method) \<Rightarrow> 'w Installer
     \<Rightarrow> 'w notification list \<times> 'w Installer \<times> error option" where
  "install iter ex inst =
     (case install_tasks ex (iter (watchers inst)) (tasks inst) (state inst) of
        (tr, s, r) \<Rightarrow> (tr, inst\<lparr>state := s\<rparr>, r))"

text \<open>
  CPython keeps a set in a hash table of eight slots at first and yields it slot by
  slot; an element goes to the slot of its hash when that slot is free. For up to
  four watchers whose hashes are distinct and below eight, whichever was added first,
  the iteration is by increasing hash. Watchers are identified here with their hash,
  and \<open>hash_order\<close> is that iteration.
\<close>

definition hash_order :: "nat list \<Rightarrow> nat list" where
  "hash_order ws = sort ws"

text \<open>
  The state after the \<^verbatim>\<open>execute\<close> of every task of \<open>ts\<close> has returned, each called
  in the state the one before left; \<open>None\<close> when one of them raises.
\<close>

fun all_execute :: "(task \<Rightarrow> 'f execute_method) \<Rightarrow> task list \<Rightarrow> State \<Rightarrow> State option" where
  "all_execute ex [] s = Some s"
| "all_execute ex (t # ts) s =
     (case call_execute (ex t) s of
        (s', None) \<Rightarrow> all_execute ex ts s'
      | (s', Some e) \<Rightarrow> None)"

text \<open>Tasks, methods and installers used as concrete inputs.\<close>

definition metadata_task :: task where
  "metadata_task = \<lparr>task_type = MetadataTaskT, task_id = 1\<rparr>"

definition fabric_task :: task where
  "fabric_task = \<lparr>task_type = FabricInitTaskT, task_id = 2\<rparr>"

definition jar_task :: task where
  "jar_task = \<lparr>task_type = OtherTaskT 0, task_id = 3\<rparr>"

definition example_execute :: "task \<Rightarrow> unit execute_method" where
  "example_execute t =
     (case task_type t of
        OtherTaskT n \<Rightarrow> Execute_state (\<lambda>s. (State_insert s (OtherV n 0), Some (TaskError n)))
      | FabricInitTaskT \<Rightarrow> Execute_state (\<lambda>s. (State_insert s (MetadataRootV ''fabric''), None))
      | _ \<Rightarrow> Execute_state (\<lambda>s. (s, None)))"

definition vanilla_installer :: "nat Installer" where
  "vanilla_installer = \<lparr>tasks = [metadata_task], state = State_init, watchers = []\<rparr>"

definition fabric_installer :: "nat Installer" where
  "fabric_installer =
     \<lparr>tasks = [fabric_task, metadata_task], state = state_ready root_1_20_1, watchers = [1]\<rparr>"

definition failing_installer :: "nat Installer" where
  "failing_installer =
     \<lparr>tasks = [fabric_task, jar_task, metadata_task], state = State_init, watchers = [5, 3]\<rparr>"

definition complete_installer :: "nat Installer" where
  "complete_installer =
     \<lparr>tasks = [fabric_task, metadata_task], state = State_init, watchers = [5, 3]\<rparr>"

section \<open>Properties of the state\<close>

text \<open>
  C5: after \<^verbatim>\<open>insert(v)\<close>, \<^verbatim>\<open>get(type(v))\<close> returns \<^verbatim>\<open>v\<close>; a second value
  \<^verbatim>\<open>w\<close> of the same class, inserted after \<^verbatim>\<open>v\<close>, is what \<^verbatim>\<open>get\<close> returns
  then, and the state is the one that inserting \<^verbatim>\<open>w\<close> alone gives: the first value is
  gone and nothing of its class is held twice.
\<close>

theorem State_insert_get:
  "State_get (State_insert s v) (type_of v) = Inr v \<and>
   (type_of w = type_of v \<longrightarrow>
      State_get (State_insert (State_insert s v) w) (type_of v) = Inr w \<and>
      State_insert (State_insert s v) w = State_insert s w)"
  by (simp add: State_get_def State_insert_def dict_get_def)

theorem State_insert_get_witness:
  "type_of (MetadataRootV ''b'') = type_of (MetadataRootV ''a'') \<and>
   State_get (State_insert State_init (MetadataRootV ''a'')) MetadataRootT
     = Inr (MetadataRootV ''a'') \<and>
   State_get (State_insert (State_insert State_init (MetadataRootV ''a'')) (MetadataRootV ''b''))
     MetadataRootT = Inr (MetadataRootV ''b'') \<and>
   State_insert (State_insert State_init (MetadataRootV ''a'')) (MetadataRootV ''b'')
     = State_insert State_init (MetadataRootV ''b'')"
proof -
  have ty: "type_of (MetadataRootV ''a'') = MetadataRootT"
    and same: "type_of (MetadataRootV ''b'') = type_of (MetadataRootV ''a'')"
    by simp_all
  have th: "State_get (State_insert State_init (MetadataRootV ''a'')) MetadataRootT
      = Inr (MetadataRootV ''a'') \<and>
    (type_of (MetadataRootV ''b'') = type_of (MetadataRootV ''a'') \<longrightarrow>
    State_get (State_insert (State_insert State_init (MetadataRootV ''a'')) (MetadataRootV ''b''))
      MetadataRootT = Inr (MetadataRootV ''b'') \<and>
    State_insert (State_insert State_init (MetadataRootV ''a'')) (MetadataRootV ''b'')
      = State_insert State_init (MetadataRootV ''b''))"
    using State_insert_get [of State_init "MetadataRootV ''a''" "MetadataRootV ''b''"]
    unfolding ty .
  from th same show ?thesis by blast
qed

text \<open>
  C6: \<^verbatim>\<open>State.get\<close> has a value for every state and every class, and never an
  error: the stored instance when the class has one, \<^verbatim>\<open>None\<close> when it has not.
\<close>

theorem State_get_total:
  "(\<forall>e. State_get s ty \<noteq> Inl e) \<and>
   State_get s ty = Inr (case data s ty of None \<Rightarrow> NoneV | Some v \<Rightarrow> v)"
  by (simp add: State_get_def dict_get_def)

section \<open>Properties of FabricInitTask\<close>

text \<open>
  The run of \<^verbatim>\<open>execute\<close> up to the registration, for a root whose loader version is
  given or has been resolved to \<open>l\<close> by the request, and a watcher that takes the
  events: the two or one events are sent, the \<^verbatim>\<open>MetadataRoot\<close> is inserted, and the
  outcome depends on what the state holds for \<^verbatim>\<open>VersionRepositories\<close>.
\<close>

lemma FabricInitTask_execute_resolved:
  assumes root: "data s FabricRootT = Some (FabricRootV root)"
    and resolved: "loader_version root = Some l \<or>
      (loader_version root = None \<and>
       http (api_url (api root) @ ''versions/loader/'' @ vanilla_version root) = Inr (Some l))"
    and accepts: "\<And>ev. on_event [ev] = None"
  shows "FabricInitTask_execute http on_event s =
    (let version_id = prefix root @ ''-'' @ vanilla_version root @ ''-'' @ l;
         s1 = State_insert s (MetadataRootV version_id);
         evs = (if loader_version root = None
                then [FabricResolveEvent (api root) (vanilla_version root) None] else [])
               @ [FabricResolveEvent (api root) (vanilla_version root) (Some l)]
     in case data s VersionRepositoriesT of
          None \<Rightarrow> (s1, evs, Some KeyError)
        | Some (VersionRepositoriesV reg) \<Rightarrow>
            (s1\<lparr>data := (data s1)(VersionRepositoriesT \<mapsto>
                VersionRepositoriesV (reg(version_id \<mapsto>
                  \<lparr>repo_api = api root, repo_version_id = version_id,
                   repo_vanilla_version = vanilla_version root,
                   repo_loader_version = Some l\<rparr>)))\<rparr>, evs, None)
        | Some _ \<Rightarrow> (s1, evs, Some AttributeError))"
proof -
  have get: "State_get s FabricRootT = Inr (FabricRootV root)"
    using root by (simp add: State_get_def dict_get_def)
  have item: "State_getitem (State_insert s (MetadataRootV i)) VersionRepositoriesT =
      (case data s VersionRepositoriesT of None \<Rightarrow> Inl KeyError | Some v \<Rightarrow> Inr v)" for i
    by (simp add: State_getitem_def dict_getitem_def State_insert_def)
  from resolved show ?thesis
  proof
    assume given: "loader_version root = Some l"
    show ?thesis
      unfolding FabricInitTask_execute_def get
      by (simp add: given accepts item Let_def VersionRepositories_insert_def
          FabricRepository_init_def split: option.split obj.split)
  next
    assume req: "loader_version root = None \<and>
       http (api_url (api root) @ ''versions/loader/'' @ vanilla_version root) = Inr (Some l)"
    then have none: "loader_version root = None"
      and answer: "request_fabric_loader_version http (api root) (vanilla_version root)
        = Inr (Some l)"
      unfolding request_fabric_loader_version_def by blast+
    show ?thesis
      unfolding FabricInitTask_execute_def get
      by (simp add: none answer accepts item Let_def VersionRepositories_insert_def
          FabricRepository_init_def split: option.split obj.split)
  qed
qed

lemma on_event_with_event_accepts: "on_event_with_event [ev] = None"
  by (simp add: on_event_with_event_def)

lemma state_ready_data:
  "data (state_ready root) FabricRootT = Some (FabricRootV root)"
  "data (state_ready root) VersionRepositoriesT = Some (VersionRepositoriesV Map.empty)"
  "data (state_ready root) MetadataRootT = None"
  by (simp_all add: state_ready_def State_insert_def State_init_def)

lemma state_root_only_data:
  "data state_root_only FabricRootT = Some (FabricRootV root_1_20_1)"
  "data state_root_only VersionRepositoriesT = None"
  by (simp_all add: state_root_only_def State_insert_def State_init_def)

text \<open>
  C7: in a state with no \<^verbatim>\<open>FabricRoot\<close>, \<^verbatim>\<open>FabricInitTask.execute\<close> returns with
  the state as it was (no \<^verbatim>\<open>MetadataRoot\<close>, no repository), no event sent and no
  error, whatever the watcher and the remote API are.
\<close>

theorem FabricInitTask_execute_no_root:
  "data s FabricRootT = None \<Longrightarrow> FabricInitTask_execute http on_event s = (s, [], None)"
  by (simp add: FabricInitTask_execute_def State_get_def dict_get_def)

theorem FabricInitTask_execute_no_root_witness:
  "data (State_insert State_init (VersionRepositoriesV Map.empty)) FabricRootT = None \<and>
   FabricInitTask_execute http_fixed (Watcher_on_event :: unit on_event)
     (State_insert State_init (VersionRepositoriesV Map.empty))
   = (State_insert State_init (VersionRepositoriesV Map.empty), [], None)"
proof -
  have absent: "data (State_insert State_init (VersionRepositoriesV Map.empty)) FabricRootT = None"
    by (simp add: State_insert_def State_init_def)
  from absent FabricInitTask_execute_no_root [OF absent] show ?thesis by blast
qed

text \<open>
  C8, amended: for a \<^verbatim>\<open>FabricRoot\<close> with prefix \<open>p\<close>, platform version \<open>v\<close> and
  loader version \<open>l\<close> (given, or resolved by the request), in a state that also holds a
  \<^verbatim>\<open>VersionRepositories\<close> instance, and with a watcher whose \<^verbatim>\<open>on_event\<close> takes
  the event, \<^verbatim>\<open>execute\<close> returns normally; the state it leaves differs from the one it
  found in two entries only: the \<^verbatim>\<open>MetadataRoot\<close> is the identifier \<open>p-v-l\<close>, and the
  repositories hold, under exactly that identifier, a \<^verbatim>\<open>FabricRepository\<close> made of the
  same identifier, \<open>v\<close> and \<open>l\<close>.
\<close>

theorem FabricInitTask_execute_registers:
  assumes root: "data s FabricRootT = Some (FabricRootV root)"
    and resolved: "loader_version root = Some l \<or>
      (loader_version root = None \<and>
       http (api_url (api root) @ ''versions/loader/'' @ vanilla_version root) = Inr (Some l))"
    and accepts: "\<And>ev. on_event [ev] = None"
    and repos: "data s VersionRepositoriesT = Some (VersionRepositoriesV reg)"
  shows "FabricInitTask_execute http on_event s =
    (let version_id = prefix root @ ''-'' @ vanilla_version root @ ''-'' @ l
     in (s\<lparr>data := (data s)
            (MetadataRootT \<mapsto> MetadataRootV version_id,
             VersionRepositoriesT \<mapsto> VersionRepositoriesV (reg(version_id \<mapsto>
               \<lparr>repo_api = api root, repo_version_id = version_id,
                repo_vanilla_version = vanilla_version root,
                repo_loader_version = Some l\<rparr>)))\<rparr>,
         (if loader_version root = None
          then [FabricResolveEvent (api root) (vanilla_version root) None] else [])
         @ [FabricResolveEvent (api root) (vanilla_version root) (Some l)],
         None))"
  unfolding FabricInitTask_execute_resolved
    [where on_event = on_event and http = http, OF root resolved accepts]
  by (simp add: repos Let_def State_insert_def)

theorem FabricInitTask_execute_registers_witness:
  "data (state_ready root_latest) FabricRootT = Some (FabricRootV root_latest) \<and>
   loader_version root_latest = None \<and>
   http_fixed (api_url (api root_latest) @ ''versions/loader/'' @ vanilla_version root_latest)
     = Inr (Some ''0.20.0'') \<and>
   (\<forall>ev :: unit event. on_event_with_event [ev] = None) \<and>
   data (state_ready root_latest) VersionRepositoriesT = Some (VersionRepositoriesV Map.empty) \<and>
   FabricInitTask_execute http_fixed (on_event_with_event :: unit on_event)
       (state_ready root_latest) =
     ((state_ready root_latest)\<lparr>data := (data (state_ready root_latest))
         (MetadataRootT \<mapsto> MetadataRootV ''quilt-1.20.1-0.20.0'',
          VersionRepositoriesT \<mapsto> VersionRepositoriesV
            [''quilt-1.20.1-0.20.0'' \<mapsto>
               \<lparr>repo_api = QUILT_API, repo_version_id = ''quilt-1.20.1-0.20.0'',
                repo_vanilla_version = ''1.20.1'', repo_loader_version = Some ''0.20.0''\<rparr>])\<rparr>,
      [FabricResolveEvent QUILT_API ''1.20.1'' None,
       FabricResolveEvent QUILT_API ''1.20.1'' (Some ''0.20.0'')],
      None)"
proof -
  have none: "loader_version root_latest = None"
    by (simp add: root_latest_def)
  have answer: "http_fixed
      (api_url (api root_latest) @ ''versions/loader/'' @ vanilla_version root_latest)
      = Inr (Some ''0.20.0'')"
    by (simp add: root_latest_def QUILT_API_def http_fixed_def)
  have accepts: "on_event_with_event [ev] = None" for ev :: "unit event"
    by (rule on_event_with_event_accepts)
  have run: "FabricInitTask_execute http_fixed (on_event_with_event :: unit on_event)
       (state_ready root_latest) =
     ((state_ready root_latest)\<lparr>data := (data (state_ready root_latest))
         (MetadataRootT \<mapsto> MetadataRootV ''quilt-1.20.1-0.20.0'',
          VersionRepositoriesT \<mapsto> VersionRepositoriesV
            [''quilt-1.20.1-0.20.0'' \<mapsto>
               \<lparr>repo_api = QUILT_API, repo_version_id = ''quilt-1.20.1-0.20.0'',
                repo_vanilla_version = ''1.20.1'', repo_loader_version = Some ''0.20.0''\<rparr>])\<rparr>,
      [FabricResolveEvent QUILT_API ''1.20.1'' None,
       FabricResolveEvent QUILT_API ''1.20.1'' (Some ''0.20.0'')],
      None)"
    unfolding FabricInitTask_execute_registers
      [of "state_ready root_latest" root_latest "''0.20.0''" http_fixed on_event_with_event
          Map.empty,
       OF state_ready_data(1) disjI2 [OF conjI [OF none answer]] accepts state_ready_data(2)]
    by (simp add: root_latest_def Let_def)
  show ?thesis
    using state_ready_data(1,2) [of root_latest] none answer accepts run by blast
qed

text \<open>
  C8 as it is written fails in two states of the call. With a \<^verbatim>\<open>FabricRoot\<close> and no
  \<^verbatim>\<open>VersionRepositories\<close> in the state, the identifier is made and inserted as
  \<^verbatim>\<open>MetadataRoot\<close>, then \<^verbatim>\<open>state[VersionRepositories]\<close> raises \<^verbatim>\<open>KeyError\<close> and no
  repository is registered. With the base \<^verbatim>\<open>Watcher\<close> of \<^verbatim>\<open>task.py\<close>, whose
  \<^verbatim>\<open>on_event\<close> has no parameter for the event, the first notification raises
  \<^verbatim>\<open>TypeError\<close> and the state is left as it was.
\<close>

theorem FabricInitTask_execute_registers_counterexample:
  "FabricInitTask_execute http_fixed (on_event_with_event :: unit on_event) state_root_only =
     (State_insert state_root_only (MetadataRootV ''fabric-1.20.1-0.14.21''),
      [FabricResolveEvent FABRIC_API ''1.20.1'' (Some ''0.14.21'')],
      Some KeyError) \<and>
   data (State_insert state_root_only (MetadataRootV ''fabric-1.20.1-0.14.21''))
     VersionRepositoriesT = None \<and>
   FabricInitTask_execute http_fixed (Watcher_on_event :: unit on_event)
       (state_ready root_1_20_1) =
     (state_ready root_1_20_1,
      [FabricResolveEvent FABRIC_API ''1.20.1'' (Some ''0.14.21'')],
      Some TypeError)"
  by (simp add: FabricInitTask_execute_def state_root_only_def state_ready_def State_get_def
      State_insert_def State_init_def dict_get_def root_1_20_1_def on_event_with_event_def
      Watcher_on_event_def State_getitem_def dict_getitem_def Let_def)

text \<open>
  C10: the subscript \<^verbatim>\<open>state[T]\<close> raises \<^verbatim>\<open>KeyError\<close> for every class \<open>T\<close> with
  no stored instance, where \<^verbatim>\<open>state.get(T)\<close> returns \<^verbatim>\<open>None\<close>; and
  \<^verbatim>\<open>FabricInitTask.execute\<close>, once the loader version is known and the events are
  sent, fails with that \<^verbatim>\<open>KeyError\<close> at its registration step when the state holds
  no \<^verbatim>\<open>VersionRepositories\<close>, the \<^verbatim>\<open>MetadataRoot\<close> being already inserted.
\<close>

theorem State_getitem_absent:
  "(data s ty = None \<longrightarrow>
      State_getitem s ty = Inl KeyError \<and> State_get s ty = Inr NoneV) \<and>
   (data s' FabricRootT = Some (FabricRootV root) \<and>
    (loader_version root = Some l \<or>
      (loader_version root = None \<and>
       http (api_url (api root) @ ''versions/loader/'' @ vanilla_version root) = Inr (Some l))) \<and>
    (\<forall>ev. on_event [ev] = None) \<and>
    data s' VersionRepositoriesT = None \<longrightarrow>
      FabricInitTask_execute http on_event s' =
        (State_insert s' (MetadataRootV
           (prefix root @ ''-'' @ vanilla_version root @ ''-'' @ l)),
         (if loader_version root = None
          then [FabricResolveEvent (api root) (vanilla_version root) None] else [])
         @ [FabricResolveEvent (api root) (vanilla_version root) (Some l)],
         Some KeyError))"
proof (intro conjI impI)
  assume "data s ty = None"
  then show "State_getitem s ty = Inl KeyError"
    by (simp add: State_getitem_def dict_getitem_def)
next
  assume "data s ty = None"
  then show "State_get s ty = Inr NoneV"
    by (simp add: State_get_def dict_get_def)
next
  assume h: "data s' FabricRootT = Some (FabricRootV root) \<and>
    (loader_version root = Some l \<or>
      (loader_version root = None \<and>
       http (api_url (api root) @ ''versions/loader/'' @ vanilla_version root) = Inr (Some l))) \<and>
    (\<forall>ev. on_event [ev] = None) \<and>
    data s' VersionRepositoriesT = None"
  then have root: "data s' FabricRootT = Some (FabricRootV root)"
    and resolved: "loader_version root = Some l \<or>
      (loader_version root = None \<and>
       http (api_url (api root) @ ''versions/loader/'' @ vanilla_version root) = Inr (Some l))"
    and accepts: "\<And>ev. on_event [ev] = None"
    and absent: "data s' VersionRepositoriesT = None"
    by blast+
  show "FabricInitTask_execute http on_event s' =
        (State_insert s' (MetadataRootV
           (prefix root @ ''-'' @ vanilla_version root @ ''-'' @ l)),
         (if loader_version root = None
          then [FabricResolveEvent (api root) (vanilla_version root) None] else [])
         @ [FabricResolveEvent (api root) (vanilla_version root) (Some l)],
         Some KeyError)"
    unfolding FabricInitTask_execute_resolved
      [where on_event = on_event and http = http, OF root resolved accepts]
    by (simp add: absent Let_def)
qed

theorem State_getitem_absent_witness:
  "data state_root_only VersionRepositoriesT = None \<and>
   State_getitem state_root_only VersionRepositoriesT = Inl KeyError \<and>
   State_get state_root_only VersionRepositoriesT = Inr NoneV \<and>
   data state_root_only FabricRootT = Some (FabricRootV root_1_20_1) \<and>
   loader_version root_1_20_1 = Some ''0.14.21'' \<and>
   (\<forall>ev :: unit event. on_event_with_event [ev] = None) \<and>
   FabricInitTask_execute http_fixed (on_event_with_event :: unit on_event) state_root_only =
     (State_insert state_root_only (MetadataRootV ''fabric-1.20.1-0.14.21''),
      [FabricResolveEvent FABRIC_API ''1.20.1'' (Some ''0.14.21'')],
      Some KeyError)"
proof -
  have given: "loader_version root_1_20_1 = Some ''0.14.21''"
    by (simp add: root_1_20_1_def)
  have accepts: "\<forall>ev :: unit event. on_event_with_event [ev] = None"
    by (simp add: on_event_with_event_accepts)
  note th = State_getitem_absent [of state_root_only VersionRepositoriesT state_root_only
      root_1_20_1 "''0.14.21''" http_fixed on_event_with_event]
  from th state_root_only_data(2)
  have item: "State_getitem state_root_only VersionRepositoriesT = Inl KeyError"
    and get: "State_get state_root_only VersionRepositoriesT = Inr NoneV"
    by blast+
  from th state_root_only_data given accepts
  have "FabricInitTask_execute http_fixed (on_event_with_event :: unit on_event) state_root_only =
     (State_insert state_root_only (MetadataRootV
        (prefix root_1_20_1 @ ''-'' @ vanilla_version root_1_20_1 @ ''-'' @ ''0.14.21'')),
      (if loader_version root_1_20_1 = None
       then [FabricResolveEvent (api root_1_20_1) (vanilla_version root_1_20_1) None] else [])
      @ [FabricResolveEvent (api root_1_20_1) (vanilla_version root_1_20_1) (Some ''0.14.21'')],
      Some KeyError)"
    by blast
  then have run: "FabricInitTask_execute http_fixed (on_event_with_event :: unit on_event)
      state_root_only =
     (State_insert state_root_only (MetadataRootV ''fabric-1.20.1-0.14.21''),
      [FabricResolveEvent FABRIC_API ''1.20.1'' (Some ''0.14.21'')],
      Some KeyError)"
    by (simp add: root_1_20_1_def)
  show ?thesis
    using state_root_only_data item get given accepts run by blast
qed

section \<open>Properties of DownloadWatcher\<close>

lemma latest_speed_snoc:
  "is_progress e \<Longrightarrow> latest_speed (evs @ [e]) k =
     (if ev_thread_id e = int k then ev_speed e else latest_speed evs k)"
  by (simp add: latest_speed_def)

lemma latest_speeds_snoc:
  assumes "is_progress e" "0 \<le> ev_thread_id e" "ev_thread_id e < W"
  shows "map (latest_speed (evs @ [e])) [0..<nat W]
     = (map (latest_speed evs) [0..<nat W])[nat (ev_thread_id e) := ev_speed e]"
  using assms by (intro nth_equalityI) (auto simp: latest_speed_snoc nth_list_update)

lemma latest_speeds_Nil: "map (latest_speed []) [0..<n] = replicate n 0"
  by (intro nth_equalityI) (auto simp: latest_speed_def)

lemma DownloadWatcher_run_append:
  "DownloadWatcher_run w (xs @ ys) =
     (case DownloadWatcher_run w xs of
        (w', Some err) \<Rightarrow> (w', Some err)
      | (w', None) \<Rightarrow> DownloadWatcher_run w' ys)"
  by (induction xs arbitrary: w) (auto split: prod.split option.split)

lemma list_setitem_in_range:
  "0 \<le> i \<Longrightarrow> i < int (length xs) \<Longrightarrow> list_setitem xs i v = Inr (xs[nat i := v])"
  by (simp add: list_setitem_def Let_def)

lemma DownloadWatcher_run_progress:
  assumes "progress_of_workers W evs"
  shows "DownloadWatcher_run w (DownloadStartEvent n tot W # evs) =
    (w\<lparr>dw_entries_count := Some n, dw_total_size := Some tot,
       dw_size := Some (received_size evs),
       dw_speeds := Some (map (latest_speed evs) [0..<nat W]),
       dw_out := dw_out w @ Task_download_start #
          map (\<lambda>k. expected_report W n (take (Suc k) evs)) [0..<length evs]\<rparr>, None)"
  using assms
proof (induction evs rule: rev_induct)
  case Nil
  then show ?case by (simp add: received_size_def latest_speeds_Nil)
next
  case (snoc e evs)
  then have prev: "progress_of_workers W evs"
    and e: "is_progress e" "0 \<le> ev_thread_id e" "ev_thread_id e < W"
    by (simp_all add: progress_of_workers_def)
  obtain t b c v where ev: "e = DownloadProgressEvent t b c v"
    using e(1) by (cases e) simp_all
  have in_range: "0 \<le> t" "t < int (length (map (latest_speed evs) [0..<nat W]))"
    using e ev by simp_all
  have speeds: "map (latest_speed (evs @ [e])) [0..<nat W]
     = (map (latest_speed evs) [0..<nat W])[nat t := v]"
    using latest_speeds_snoc [OF e, of evs] ev by simp
  have size: "received_size (evs @ [e]) = received_size evs + b"
    using ev by (simp add: received_size_def)
  have reports: "map (\<lambda>k. expected_report W n (take (Suc k) (evs @ [e]))) [0..<length (evs @ [e])]
     = map (\<lambda>k. expected_report W n (take (Suc k) evs)) [0..<length evs]
       @ [expected_report W n (evs @ [e])]"
    by simp
  have last: "expected_report W n (evs @ [e]) =
      Task_download_progress (py_sum ((map (latest_speed evs) [0..<nat W])[nat t := v])) c n
        (received_size evs + b)"
    unfolding expected_report_def speeds size using ev by simp
  have "DownloadWatcher_run w ((DownloadStartEvent n tot W # evs) @ [e]) =
      (case DownloadWatcher_run w (DownloadStartEvent n tot W # evs) of
        (w', Some err) \<Rightarrow> (w', Some err)
      | (w', None) \<Rightarrow> DownloadWatcher_run w' [e])"
    by (rule DownloadWatcher_run_append)
  also have "\<dots> = DownloadWatcher_run (w\<lparr>dw_entries_count := Some n, dw_total_size := Some tot,
       dw_size := Some (received_size evs),
       dw_speeds := Some (map (latest_speed evs) [0..<nat W]),
       dw_out := dw_out w @ Task_download_start #
          map (\<lambda>k. expected_report W n (take (Suc k) evs)) [0..<length evs]\<rparr>) [e]"
    unfolding snoc.IH [OF prev] by simp
  also have "\<dots> = (w\<lparr>dw_entries_count := Some n, dw_total_size := Some tot,
       dw_size := Some (received_size (evs @ [e])),
       dw_speeds := Some (map (latest_speed (evs @ [e])) [0..<nat W]),
       dw_out := dw_out w @ Task_download_start #
          map (\<lambda>k. expected_report W n (take (Suc k) (evs @ [e]))) [0..<length (evs @ [e])]\<rparr>, None)"
    unfolding reports last speeds size
    by (simp add: ev list_setitem_in_range [OF in_range] Let_def)
  finally show ?case by simp
qed

text \<open>
  C9: after a \<^verbatim>\<open>DownloadStartEvent\<close> announcing \<open>W\<close> workers, and for any sequence of
  progress events of these workers (thread ids from \<open>0\<close> to \<open>W - 1\<close>), the watcher
  handles every event without error and makes one progress report per event; the
  report of the event at position \<open>k\<close> has for speed the sum, over the \<open>W\<close> workers,
  of the speed each has reported last among the events up to position \<open>k\<close> (zero for
  a worker that has not reported yet), and for size the sum of the byte counts of the
  events up to position \<open>k\<close>. The speeds are of any type with a zero and an addition:
  both sides add the same numbers in the same order.
\<close>

theorem DownloadWatcher_aggregates:
  assumes workers: "progress_of_workers W evs"
  shows "\<exists>w'. DownloadWatcher_run w (DownloadStartEvent n tot W # evs) = (w', None) \<and>
    dw_out w' = dw_out w @ Task_download_start #
      map (\<lambda>k. Task_download_progress
                 (py_sum (map (latest_speed (take (Suc k) evs)) [0..<nat W]))
                 (ev_count (evs ! k)) n
                 (received_size (take (Suc k) evs)))
          [0..<length evs]"
proof -
  have "expected_report W n (take (Suc k) evs) =
      Task_download_progress
        (py_sum (map (latest_speed (take (Suc k) evs)) [0..<nat W]))
        (ev_count (evs ! k)) n (received_size (take (Suc k) evs))"
    if "k < length evs" for k
    using that by (simp add: expected_report_def take_Suc_conv_app_nth)
  then have "map (\<lambda>k. expected_report W n (take (Suc k) evs)) [0..<length evs] =
      map (\<lambda>k. Task_download_progress
                 (py_sum (map (latest_speed (take (Suc k) evs)) [0..<nat W]))
                 (ev_count (evs ! k)) n
                 (received_size (take (Suc k) evs)))
          [0..<length evs]"
    by simp
  then show ?thesis
    unfolding DownloadWatcher_run_progress [OF workers] by simp
qed

theorem DownloadWatcher_aggregates_witness:
  "progress_of_workers 2 progress_example \<and>
   snd (DownloadWatcher_run DownloadWatcher_init (DownloadStartEvent 5 1000 2 # progress_example))
     = None \<and>
   dw_out (fst (DownloadWatcher_run DownloadWatcher_init
       (DownloadStartEvent 5 1000 2 # progress_example))) =
     [Task_download_start, Task_download_progress 100 1 5 10,
      Task_download_progress 350 1 5 30, Task_download_progress 320 2 5 35]"
proof -
  have workers: "progress_of_workers 2 progress_example"
    by (simp add: progress_of_workers_def progress_example_def)
  have upt: "[0..<length progress_example] = [0, 1, 2]" "[0..<nat 2] = [0, 1]"
    by (simp_all add: progress_example_def upt_conv_Cons)
  have reports: "map (\<lambda>k. Task_download_progress
                 (py_sum (map (latest_speed (take (Suc k) progress_example)) [0..<nat 2]))
                 (ev_count (progress_example ! k)) 5
                 (received_size (take (Suc k) progress_example)))
          [0..<length progress_example] =
     [Task_download_progress 100 1 5 10,
      Task_download_progress 350 1 5 30, Task_download_progress 320 2 5 35]"
    unfolding upt
    by (simp add: progress_example_def latest_speed_def py_sum_def received_size_def)
  from DownloadWatcher_aggregates [OF workers, of DownloadWatcher_init 5 1000]
  obtain w' where
    run: "DownloadWatcher_run DownloadWatcher_init (DownloadStartEvent 5 1000 2 # progress_example)
      = (w', None)"
    and out: "dw_out w' = dw_out (DownloadWatcher_init :: int DownloadWatcher) @
      Task_download_start #
      map (\<lambda>k. Task_download_progress
                 (py_sum (map (latest_speed (take (Suc k) progress_example)) [0..<nat 2]))
                 (ev_count (progress_example ! k)) 5
                 (received_size (take (Suc k) progress_example)))
          [0..<length progress_example]"
    by blast
  from out have "dw_out w' =
     [Task_download_start, Task_download_progress 100 1 5 10,
      Task_download_progress 350 1 5 30, Task_download_progress 320 2 5 35]"
    unfolding reports by (simp add: DownloadWatcher_init_def)
  with workers run show ?thesis by simp
qed

section \<open>Properties of the installer\<close>

text \<open>
  Both loops insert, next to a task of the anchor class found at position \<open>i\<close>, that
  task itself, so that position \<open>i + 1\<close> holds a task of the anchor class again: as
  soon as the list holds an anchor at or after the position of the iterator, the loop
  has no result. With no anchor the loop ends, its variable bound to the last task.
\<close>

lemma tasks_insert_task:
  "k \<le> length (tasks inst) \<Longrightarrow>
   tasks (insert_task setup_of x (int k) inst) = take k (tasks inst) @ x # drop k (tasks inst)"
  by (simp add: insert_task_def list_insert_def Let_def min_def)

lemma append_task_loop_result:
  assumes result: "append_task_loop setup_of after i t inst = Some y"
  shows "\<not> (\<exists>j\<ge>i. j < length (tasks inst) \<and> task_type (tasks inst ! j) = after)"
proof (rule append_task_loop.raw_induct
    [where P = "\<lambda>su a i t inst y.
       \<not> (\<exists>j\<ge>i. j < length (tasks inst) \<and> task_type (tasks inst ! j) = a)",
     OF _ result])
  fix loop :: "setup_method \<Rightarrow> task_type \<Rightarrow> nat \<Rightarrow> task \<Rightarrow> 'a Installer
      \<Rightarrow> (task \<times> 'a Installer) option"
  fix su a i t and inst :: "'a Installer" and y
  let ?inst = "if task_type (tasks inst ! i) = a
            then insert_task su (tasks inst ! i) (int i + 1) inst
            else inst"
  assume IH: "\<And>su a i t inst y. loop su a i t inst = Some y \<Longrightarrow>
      \<not> (\<exists>j\<ge>i. j < length (tasks inst) \<and> task_type (tasks inst ! j) = a)"
    and body: "(if i < length (tasks inst)
      then loop su a (Suc i) (tasks inst ! i) ?inst
      else Some (t, inst)) = Some y"
  show "\<not> (\<exists>j\<ge>i. j < length (tasks inst) \<and> task_type (tasks inst ! j) = a)"
  proof
    assume "\<exists>j\<ge>i. j < length (tasks inst) \<and> task_type (tasks inst ! j) = a"
    then obtain j where j: "i \<le> j" "j < length (tasks inst)"
      "task_type (tasks inst ! j) = a"
      by blast
    then have less: "i < length (tasks inst)" by simp
    from body less have "loop su a (Suc i) (tasks inst ! i) ?inst = Some y"
      by simp
    then have none: "\<not> (\<exists>j\<ge>Suc i. j < length (tasks ?inst) \<and>
        task_type (tasks ?inst ! j) = a)"
      by (rule IH)
    show False
    proof (cases "task_type (tasks inst ! i) = a")
      case True
      have "tasks (insert_task su (tasks inst ! i) (int (Suc i)) inst)
          = take (Suc i) (tasks inst) @ (tasks inst ! i) # drop (Suc i) (tasks inst)"
        using less by (intro tasks_insert_task) simp
      then have ts: "tasks ?inst
          = take (Suc i) (tasks inst) @ (tasks inst ! i) # drop (Suc i) (tasks inst)"
        using True by (simp add: add.commute)
      have "Suc i < length (tasks ?inst)" "tasks ?inst ! Suc i = tasks inst ! i"
        unfolding ts using less by (simp_all add: nth_append)
      with True none show False by auto
    next
      case False
      with j have "Suc i \<le> j" by (cases "i = j") auto
      with False j none show False by auto
    qed
  qed
qed

lemma prepend_task_loop_result:
  assumes result: "prepend_task_loop setup_of before i t inst = Some y"
  shows "\<not> (\<exists>j\<ge>i. j < length (tasks inst) \<and> task_type (tasks inst ! j) = before)"
proof (rule prepend_task_loop.raw_induct
    [where P = "\<lambda>su a i t inst y.
       \<not> (\<exists>j\<ge>i. j < length (tasks inst) \<and> task_type (tasks inst ! j) = a)",
     OF _ result])
  fix loop :: "setup_method \<Rightarrow> task_type \<Rightarrow> nat \<Rightarrow> task \<Rightarrow> 'a Installer
      \<Rightarrow> (task \<times> 'a Installer) option"
  fix su a i t and inst :: "'a Installer" and y
  let ?inst = "if task_type (tasks inst ! i) = a
            then insert_task su (tasks inst ! i) (int i) inst
            else inst"
  assume IH: "\<And>su a i t inst y. loop su a i t inst = Some y \<Longrightarrow>
      \<not> (\<exists>j\<ge>i. j < length (tasks inst) \<and> task_type (tasks inst ! j) = a)"
    and body: "(if i < length (tasks inst)
      then loop su a (Suc i) (tasks inst ! i) ?inst
      else Some (t, inst)) = Some y"
  show "\<not> (\<exists>j\<ge>i. j < length (tasks inst) \<and> task_type (tasks inst ! j) = a)"
  proof
    assume "\<exists>j\<ge>i. j < length (tasks inst) \<and> task_type (tasks inst ! j) = a"
    then obtain j where j: "i \<le> j" "j < length (tasks inst)"
      "task_type (tasks inst ! j) = a"
      by blast
    then have less: "i < length (tasks inst)" by simp
    from body less have "loop su a (Suc i) (tasks inst ! i) ?inst = Some y"
      by simp
    then have none: "\<not> (\<exists>j\<ge>Suc i. j < length (tasks ?inst) \<and>
        task_type (tasks ?inst ! j) = a)"
      by (rule IH)
    show False
    proof (cases "task_type (tasks inst ! i) = a")
      case True
      have "tasks (insert_task su (tasks inst ! i) (int i) inst)
          = take i (tasks inst) @ (tasks inst ! i) # drop i (tasks inst)"
        using less by (intro tasks_insert_task) simp
      then have ts: "tasks ?inst
          = take i (tasks inst) @ (tasks inst ! i) # drop i (tasks inst)"
        using True by simp
      have "Suc i < length (tasks ?inst)" "tasks ?inst ! Suc i = tasks inst ! i"
        unfolding ts using less by (simp_all add: nth_append)
      with True none show False by auto
    next
      case False
      with j have "Suc i \<le> j" by (cases "i = j") auto
      with False j none show False by auto
    qed
  qed
qed

lemma append_task_loop_no_anchor:
  assumes "\<forall>j. i \<le> j \<and> j < length (tasks inst) \<longrightarrow> task_type (tasks inst ! j) \<noteq> after"
  shows "append_task_loop setup_of after i t inst =
     Some (if i < length (tasks inst) then last (tasks inst) else t, inst)"
  using assms
proof (induction "length (tasks inst) - i" arbitrary: i t)
  case 0
  then show ?case by (subst append_task_loop.simps) simp
next
  case (Suc n)
  then have less: "i < length (tasks inst)" and other: "task_type (tasks inst ! i) \<noteq> after"
    by auto
  have "append_task_loop setup_of after (Suc i) (tasks inst ! i) inst =
     Some (if Suc i < length (tasks inst) then last (tasks inst) else tasks inst ! i, inst)"
    using Suc by (intro Suc(1)) auto
  moreover have "tasks inst ! i = last (tasks inst)" if "\<not> Suc i < length (tasks inst)"
  proof -
    from that less have "i = length (tasks inst) - 1" and "tasks inst \<noteq> []"
      by auto
    then show ?thesis by (simp add: last_conv_nth)
  qed
  ultimately show ?case
    using less other by (subst append_task_loop.simps) auto
qed

lemma prepend_task_loop_no_anchor:
  assumes "\<forall>j. i \<le> j \<and> j < length (tasks inst) \<longrightarrow> task_type (tasks inst ! j) \<noteq> before"
  shows "prepend_task_loop setup_of before i t inst =
     Some (if i < length (tasks inst) then last (tasks inst) else t, inst)"
  using assms
proof (induction "length (tasks inst) - i" arbitrary: i t)
  case 0
  then show ?case by (subst prepend_task_loop.simps) simp
next
  case (Suc n)
  then have less: "i < length (tasks inst)" and other: "task_type (tasks inst ! i) \<noteq> before"
    by auto
  have "prepend_task_loop setup_of before (Suc i) (tasks inst ! i) inst =
     Some (if Suc i < length (tasks inst) then last (tasks inst) else tasks inst ! i, inst)"
    using Suc by (intro Suc(1)) auto
  moreover have "tasks inst ! i = last (tasks inst)" if "\<not> Suc i < length (tasks inst)"
  proof -
    from that less have "i = length (tasks inst) - 1" and "tasks inst \<noteq> []"
      by auto
    then show ?thesis by (simp add: last_conv_nth)
  qed
  ultimately show ?case
    using less other by (subst prepend_task_loop.simps) auto
qed


lemma append_task_loop_diverges:
  assumes "j < length (tasks inst)" "task_type (tasks inst ! j) = after"
  shows "append_task_loop setup_of after 0 t inst = None"
proof (cases "append_task_loop setup_of after 0 t inst")
  case (Some y)
  from append_task_loop_result [OF Some] assms show ?thesis by blast
qed simp

lemma prepend_task_loop_diverges:
  assumes "j < length (tasks inst)" "task_type (tasks inst ! j) = before"
  shows "prepend_task_loop setup_of before 0 t inst = None"
proof (cases "prepend_task_loop setup_of before 0 t inst")
  case (Some y)
  from prepend_task_loop_result [OF Some] assms show ?thesis by blast
qed simp

text \<open>
  C1 claims that the given task is inserted next to the first task of the anchor class,
  or appended (prepended) when there is none. What \<^verbatim>\<open>append_task\<close> and
  \<^verbatim>\<open>prepend_task\<close> do on a non-empty list, for any task \<open>t\<close> and anchor class \<open>a\<close>:
  with a task of class \<open>a\<close> in the list they do not return, and with none they insert
  the last task of the list once more (and run its \<^verbatim>\<open>setup\<close>), at the end or at the
  front; \<open>t\<close> is not inserted in either case.
\<close>

theorem insert_relative_rebinds_task:
  assumes nonempty: "tasks inst \<noteq> []"
  shows "append_task setup_of t (Some a) inst =
      (if \<exists>x \<in> set (tasks inst). task_type x = a then None
       else Some (insert_task setup_of (last (tasks inst)) (int (length (tasks inst))) inst)) \<and>
    prepend_task setup_of t (Some a) inst =
      (if \<exists>x \<in> set (tasks inst). task_type x = a then None
       else Some (insert_task setup_of (last (tasks inst)) 0 inst))"
proof (cases "\<exists>x \<in> set (tasks inst). task_type x = a")
  case True
  then obtain j where "j < length (tasks inst)" "task_type (tasks inst ! j) = a"
    by (auto simp: in_set_conv_nth)
  then have "append_task_loop setup_of a 0 t inst = None"
    "prepend_task_loop setup_of a 0 t inst = None"
    by (rule append_task_loop_diverges, rule prepend_task_loop_diverges)
  with True show ?thesis
    by (simp add: append_task_def prepend_task_def)
next
  case False
  then have none: "\<forall>j. 0 \<le> j \<and> j < length (tasks inst) \<longrightarrow> task_type (tasks inst ! j) \<noteq> a"
    by auto
  from nonempty have "0 < length (tasks inst)" by simp
  with append_task_loop_no_anchor [OF none] prepend_task_loop_no_anchor [OF none] False
  show ?thesis
    by (simp add: append_task_def prepend_task_def)
qed

theorem insert_relative_rebinds_task_witness:
  "tasks vanilla_installer \<noteq> [] \<and>
   prepend_task portablemc_setup fabric_task (Some MetadataTaskT) vanilla_installer = None \<and>
   append_task portablemc_setup fabric_task (Some MetadataTaskT) vanilla_installer = None \<and>
   prepend_task portablemc_setup fabric_task (Some (OtherTaskT 7)) vanilla_installer =
     Some (vanilla_installer\<lparr>tasks := [metadata_task, metadata_task]\<rparr>) \<and>
   append_task portablemc_setup fabric_task (Some (OtherTaskT 7)) vanilla_installer =
     Some (vanilla_installer\<lparr>tasks := [metadata_task, metadata_task]\<rparr>)"
proof -
  have nonempty: "tasks vanilla_installer \<noteq> []"
    by (simp add: vanilla_installer_def)
  have present: "(\<exists>x \<in> set (tasks vanilla_installer). task_type x = MetadataTaskT) = True"
    and absent: "(\<exists>x \<in> set (tasks vanilla_installer). task_type x = OtherTaskT 7) = False"
    by (simp_all add: vanilla_installer_def metadata_task_def)
  have ins_end: "insert_task portablemc_setup (last (tasks vanilla_installer))
        (int (length (tasks vanilla_installer))) vanilla_installer
      = vanilla_installer\<lparr>tasks := [metadata_task, metadata_task]\<rparr>"
    and ins_front: "insert_task portablemc_setup (last (tasks vanilla_installer)) 0
        vanilla_installer
      = vanilla_installer\<lparr>tasks := [metadata_task, metadata_task]\<rparr>"
    by (simp_all add: insert_task_def list_insert_def vanilla_installer_def portablemc_setup_def
        Task_setup_def)
  note th = insert_relative_rebinds_task [OF nonempty, of portablemc_setup fabric_task]
  from th [of MetadataTaskT] th [of "OtherTaskT 7"] nonempty
  show ?thesis
    unfolding present absent if_True if_False ins_end ins_front by blast
qed

text \<open>
  The shape of a run over the tasks \<open>ts\<close>: either every task completes, or the run
  ends at the first task whose \<^verbatim>\<open>execute\<close> raises, after the tasks before it have
  completed.
\<close>

lemma install_tasks_shape:
  "install_tasks ex ws ts s = (tr, s', r) \<Longrightarrow>
   (r = None \<and>
    tr = concat (map (\<lambda>t. notify_begin ws t @ Execute t # notify_end ws t) ts)) \<or>
   (\<exists>e finished t rest s1.
      r = Some e \<and> ts = finished @ t # rest \<and>
      install_tasks ex ws finished s =
        (concat (map (\<lambda>t. notify_begin ws t @ Execute t # notify_end ws t) finished),
         s1, None) \<and>
      call_execute (ex t) s1 = (s', Some e) \<and>
      tr = concat (map (\<lambda>t. notify_begin ws t @ Execute t # notify_end ws t) finished)
           @ notify_begin ws t @ [Execute t])"
proof (induction ts arbitrary: s tr s' r)
  case Nil
  then show ?case by simp
next
  case (Cons t ts)
  obtain s1 r1 where call: "call_execute (ex t) s = (s1, r1)"
    by (cases "call_execute (ex t) s")
  show ?case
  proof (cases r1)
    case (Some e)
    with Cons.prems call have "r = Some e" "s' = s1" "tr = notify_begin ws t @ [Execute t]"
      by simp_all
    with call Some have "r = Some e \<and> t # ts = [] @ t # ts \<and>
      install_tasks ex ws [] s =
        (concat (map (\<lambda>t. notify_begin ws t @ Execute t # notify_end ws t) []), s, None) \<and>
      call_execute (ex t) s = (s', Some e) \<and>
      tr = concat (map (\<lambda>t. notify_begin ws t @ Execute t # notify_end ws t) [])
           @ notify_begin ws t @ [Execute t]"
      by simp
    then show ?thesis by blast
  next
    case None
    obtain tr2 s2 r2 where rest: "install_tasks ex ws ts s1 = (tr2, s2, r2)"
      by (cases "install_tasks ex ws ts s1")
    with Cons.prems call None
    have res: "r = r2" "s' = s2"
      "tr = notify_begin ws t @ [Execute t] @ notify_end ws t @ tr2"
      by simp_all
    from Cons.IH [OF rest] show ?thesis
    proof
      assume "r2 = None \<and>
        tr2 = concat (map (\<lambda>t. notify_begin ws t @ Execute t # notify_end ws t) ts)"
      with res show ?thesis by simp
    next
      assume "\<exists>e finished t rest s1'.
        r2 = Some e \<and> ts = finished @ t # rest \<and>
        install_tasks ex ws finished s1 =
          (concat (map (\<lambda>t. notify_begin ws t @ Execute t # notify_end ws t) finished),
           s1', None) \<and>
        call_execute (ex t) s1' = (s2, Some e) \<and>
        tr2 = concat (map (\<lambda>t. notify_begin ws t @ Execute t # notify_end ws t) finished)
             @ notify_begin ws t @ [Execute t]"
      then obtain e finished u rest s1' where
        f: "r2 = Some e" "ts = finished @ u # rest"
        "install_tasks ex ws finished s1 =
          (concat (map (\<lambda>t. notify_begin ws t @ Execute t # notify_end ws t) finished),
           s1', None)"
        "call_execute (ex u) s1' = (s2, Some e)"
        "tr2 = concat (map (\<lambda>t. notify_begin ws t @ Execute t # notify_end ws t) finished)
             @ notify_begin ws u @ [Execute u]"
        by blast
      have "r = Some e \<and> t # ts = (t # finished) @ u # rest \<and>
        install_tasks ex ws (t # finished) s =
          (concat (map (\<lambda>t. notify_begin ws t @ Execute t # notify_end ws t) (t # finished)),
           s1', None) \<and>
        call_execute (ex u) s1' = (s', Some e) \<and>
        tr = concat (map (\<lambda>t. notify_begin ws t @ Execute t # notify_end ws t) (t # finished))
             @ notify_begin ws u @ [Execute u]"
        using f res call None by simp
      then show ?thesis by blast
    qed
  qed
qed


lemma install_tasks_complete:
  "all_execute ex ts s = Some s' \<Longrightarrow>
   install_tasks ex ws ts s = (concat (map (completed_task ws) ts), s', None)"
proof (induction ts arbitrary: s)
  case Nil
  then show ?case by simp
next
  case (Cons t ts)
  obtain s1 r1 where call: "call_execute (ex t) s = (s1, r1)"
    by (cases "call_execute (ex t) s")
  with Cons.prems have ok: "r1 = None" and rest: "all_execute ex ts s1 = Some s'"
    by (simp_all split: option.splits)
  from Cons.IH [OF rest] call ok show ?case
    by (simp add: completed_task_def)
qed

lemma install_tasks_abort:
  "all_execute ex finished s = Some s1 \<Longrightarrow> call_execute (ex t) s1 = (s2, Some e) \<Longrightarrow>
   install_tasks ex ws (finished @ t # rest) s =
     (concat (map (completed_task ws) finished) @ failed_task ws t, s2, Some e)"
proof (induction finished arbitrary: s)
  case Nil
  then show ?case by (simp add: failed_task_def)
next
  case (Cons u us)
  obtain s' r' where call: "call_execute (ex u) s = (s', r')"
    by (cases "call_execute (ex u) s")
  with Cons.prems(1) have ok: "r' = None" and rest: "all_execute ex us s' = Some s1"
    by (simp_all split: option.splits)
  from Cons.IH [OF rest Cons.prems(2)] call ok show ?case
    by (simp add: completed_task_def)
qed

lemma install_tasks_returns:
  "install_tasks ex ws ts s = (tr, s', None) \<Longrightarrow> all_execute ex ts s = Some s'"
proof (induction ts arbitrary: s tr)
  case Nil
  then show ?case by simp
next
  case (Cons t ts)
  obtain s1 r1 where call: "call_execute (ex t) s = (s1, r1)"
    by (cases "call_execute (ex t) s")
  obtain tr2 s2 r2 where rest: "install_tasks ex ws ts s1 = (tr2, s2, r2)"
    by (cases "install_tasks ex ws ts s1")
  from Cons.prems call rest have "r1 = None" "r2 = None" "s2 = s'"
    by (simp_all split: option.splits)
  with Cons.IH [of s1 tr2] rest call show ?case by simp
qed

lemma hash_order_two: "hash_order [5, 3] = [3, 5]"
  by (simp add: hash_order_def)

lemma install_complete_installer:
  "all_execute example_execute (tasks complete_installer) (state complete_installer) =
     Some (State_insert State_init (MetadataRootV ''fabric''))"
  by (simp add: complete_installer_def example_execute_def call_execute_def fabric_task_def
      metadata_task_def)

lemma install_failing_installer:
  "tasks failing_installer = [fabric_task] @ jar_task # [metadata_task]"
  "all_execute example_execute [fabric_task] (state failing_installer) =
     Some (State_insert State_init (MetadataRootV ''fabric''))"
  "call_execute (example_execute jar_task) (State_insert State_init (MetadataRootV ''fabric'')) =
     (State_insert (State_insert State_init (MetadataRootV ''fabric'')) (OtherV 0 0),
      Some (TaskError 0))"
  by (simp_all add: failing_installer_def example_execute_def call_execute_def fabric_task_def
      jar_task_def)

lemma example_traces:
  "concat (map (completed_task (hash_order (watchers complete_installer)))
      (tasks complete_installer)) =
     [On_task_begin 3 fabric_task, On_task_begin 5 fabric_task, Execute fabric_task,
      On_task_end 3 fabric_task, On_task_end 5 fabric_task,
      On_task_begin 3 metadata_task, On_task_begin 5 metadata_task, Execute metadata_task,
      On_task_end 3 metadata_task, On_task_end 5 metadata_task]"
  "concat (map (completed_task (hash_order (watchers failing_installer))) [fabric_task])
     @ failed_task (hash_order (watchers failing_installer)) jar_task =
     [On_task_begin 3 fabric_task, On_task_begin 5 fabric_task, Execute fabric_task,
      On_task_end 3 fabric_task, On_task_end 5 fabric_task,
      On_task_begin 3 jar_task, On_task_begin 5 jar_task, Execute jar_task]"
  by (simp_all add: complete_installer_def failing_installer_def hash_order_two
      completed_task_def failed_task_def notify_begin_def notify_end_def)



text \<open>
  C4: \<^verbatim>\<open>install\<close> goes through the tasks in the order of the list. When the
  \<^verbatim>\<open>execute\<close> of every task returns, each called in the state the one before left,
  the run returns with no error, in the last of these states, and is, task after task,
  the \<^verbatim>\<open>on_task_begin\<close> of every watcher, the call of \<^verbatim>\<open>execute\<close>, the
  \<^verbatim>\<open>on_task_end\<close> of every watcher. When the tasks before some task \<open>t\<close> return and
  the \<^verbatim>\<open>execute\<close> of \<open>t\<close> raises \<open>e\<close>, the run ends there and \<open>e\<close> reaches the
  caller, in the state in which that call left the installer: the run is the
  completed tasks before \<open>t\<close>, the \<^verbatim>\<open>on_task_begin\<close> notifications of \<open>t\<close> and the
  call of its \<^verbatim>\<open>execute\<close>, with no \<^verbatim>\<open>on_task_end\<close> for \<open>t\<close> and no notification
  or call for a task after it. Conversely every run is one of the two, and changes
  neither the list of tasks nor the watchers.
\<close>

theorem install_runs_in_order:
  "(all_execute ex (tasks inst) (state inst) = Some s' \<longrightarrow>
      install iter ex inst =
        (concat (map (completed_task (iter (watchers inst))) (tasks inst)),
         inst\<lparr>state := s'\<rparr>, None)) \<and>
   (tasks inst = finished @ t # rest \<and>
    all_execute ex finished (state inst) = Some s_mid \<and>
    call_execute (ex t) s_mid = (s_err, Some e) \<longrightarrow>
      install iter ex inst =
        (concat (map (completed_task (iter (watchers inst))) finished)
           @ failed_task (iter (watchers inst)) t,
         inst\<lparr>state := s_err\<rparr>, Some e)) \<and>
   (install iter ex inst = (tr, inst', r) \<longrightarrow>
      tasks inst' = tasks inst \<and> watchers inst' = watchers inst \<and>
      ((r = None \<and>
        all_execute ex (tasks inst) (state inst) = Some (state inst') \<and>
        tr = concat (map (completed_task (iter (watchers inst))) (tasks inst))) \<or>
       (\<exists>e' done t' rest' s1'.
          r = Some e' \<and> tasks inst = done @ t' # rest' \<and>
          all_execute ex done (state inst) = Some s1' \<and>
          call_execute (ex t') s1' = (state inst', Some e') \<and>
          tr = concat (map (completed_task (iter (watchers inst))) done)
               @ failed_task (iter (watchers inst)) t')))"
proof (intro conjI impI)
  assume "all_execute ex (tasks inst) (state inst) = Some s'"
  from install_tasks_complete [OF this, where ws = "iter (watchers inst)"]
  show "install iter ex inst =
        (concat (map (completed_task (iter (watchers inst))) (tasks inst)),
         inst\<lparr>state := s'\<rparr>, None)"
    by (simp add: install_def)
next
  assume h: "tasks inst = finished @ t # rest \<and>
    all_execute ex finished (state inst) = Some s_mid \<and>
    call_execute (ex t) s_mid = (s_err, Some e)"
  then have prefix: "all_execute ex finished (state inst) = Some s_mid"
    and raises: "call_execute (ex t) s_mid = (s_err, Some e)"
    by blast+
  have "install_tasks ex (iter (watchers inst)) (finished @ t # rest) (state inst) =
     (concat (map (completed_task (iter (watchers inst))) finished)
        @ failed_task (iter (watchers inst)) t, s_err, Some e)"
    by (rule install_tasks_abort [OF prefix raises])
  with h show "install iter ex inst =
        (concat (map (completed_task (iter (watchers inst))) finished)
           @ failed_task (iter (watchers inst)) t,
         inst\<lparr>state := s_err\<rparr>, Some e)"
    by (simp add: install_def)
next
  assume run: "install iter ex inst = (tr, inst', r)"
  then obtain s3 where loop: "install_tasks ex (iter (watchers inst)) (tasks inst) (state inst)
      = (tr, s3, r)" and inst': "inst' = inst\<lparr>state := s3\<rparr>"
    by (auto simp: install_def split: prod.splits)
  from inst' show "tasks inst' = tasks inst" "watchers inst' = watchers inst"
    by simp_all
  have unf: "completed_task (iter (watchers inst)) =
      (\<lambda>t. notify_begin (iter (watchers inst)) t @ Execute t # notify_end (iter (watchers inst)) t)"
    by (simp add: completed_task_def fun_eq_iff)
  have shape: "(r = None \<and>
      tr = concat (map (completed_task (iter (watchers inst))) (tasks inst))) \<or>
    (\<exists>e finished t rest s1.
      r = Some e \<and> tasks inst = finished @ t # rest \<and>
      install_tasks ex (iter (watchers inst)) finished (state inst) =
        (concat (map (completed_task (iter (watchers inst))) finished), s1, None) \<and>
      call_execute (ex t) s1 = (s3, Some e) \<and>
      tr = concat (map (completed_task (iter (watchers inst))) finished)
           @ failed_task (iter (watchers inst)) t)"
    unfolding unf failed_task_def using install_tasks_shape [OF loop] .
  from shape
  show "(r = None \<and>
        all_execute ex (tasks inst) (state inst) = Some (state inst') \<and>
        tr = concat (map (completed_task (iter (watchers inst))) (tasks inst))) \<or>
       (\<exists>e' done t' rest' s1'.
          r = Some e' \<and> tasks inst = done @ t' # rest' \<and>
          all_execute ex done (state inst) = Some s1' \<and>
          call_execute (ex t') s1' = (state inst', Some e') \<and>
          tr = concat (map (completed_task (iter (watchers inst))) done)
               @ failed_task (iter (watchers inst)) t')"
  proof (rule disjE)
    assume ok: "r = None \<and>
      tr = concat (map (completed_task (iter (watchers inst))) (tasks inst))"
    with loop have "all_execute ex (tasks inst) (state inst) = Some s3"
      by (intro install_tasks_returns [where ws = "iter (watchers inst)" and tr = tr]) simp
    with ok inst' show ?thesis by simp
  next
    assume "\<exists>e finished t rest s1.
      r = Some e \<and> tasks inst = finished @ t # rest \<and>
      install_tasks ex (iter (watchers inst)) finished (state inst) =
        (concat (map (completed_task (iter (watchers inst))) finished), s1, None) \<and>
      call_execute (ex t) s1 = (s3, Some e) \<and>
      tr = concat (map (completed_task (iter (watchers inst))) finished)
           @ failed_task (iter (watchers inst)) t"
    then obtain e' fin t' rest' s1' where
      f: "r = Some e'" "tasks inst = fin @ t' # rest'"
      "install_tasks ex (iter (watchers inst)) fin (state inst) =
        (concat (map (completed_task (iter (watchers inst))) fin), s1', None)"
      "call_execute (ex t') s1' = (s3, Some e')"
      "tr = concat (map (completed_task (iter (watchers inst))) fin)
           @ failed_task (iter (watchers inst)) t'"
      by blast
    from install_tasks_returns [OF f(3)] have "all_execute ex fin (state inst) = Some s1'" .
    with f inst' have "r = Some e' \<and> tasks inst = fin @ t' # rest' \<and>
          all_execute ex fin (state inst) = Some s1' \<and>
          call_execute (ex t') s1' = (state inst', Some e') \<and>
          tr = concat (map (completed_task (iter (watchers inst))) fin)
               @ failed_task (iter (watchers inst)) t'"
      by simp
    then show ?thesis by blast
  qed
qed

theorem install_runs_in_order_witness:
  "all_execute example_execute (tasks complete_installer) (state complete_installer) =
     Some (State_insert State_init (MetadataRootV ''fabric'')) \<and>
   install hash_order example_execute complete_installer =
     ([On_task_begin 3 fabric_task, On_task_begin 5 fabric_task, Execute fabric_task,
       On_task_end 3 fabric_task, On_task_end 5 fabric_task,
       On_task_begin 3 metadata_task, On_task_begin 5 metadata_task, Execute metadata_task,
       On_task_end 3 metadata_task, On_task_end 5 metadata_task],
      complete_installer\<lparr>state := State_insert State_init (MetadataRootV ''fabric'')\<rparr>,
      None) \<and>
   tasks failing_installer = [fabric_task] @ jar_task # [metadata_task] \<and>
   all_execute example_execute [fabric_task] (state failing_installer) =
     Some (State_insert State_init (MetadataRootV ''fabric'')) \<and>
   call_execute (example_execute jar_task) (State_insert State_init (MetadataRootV ''fabric'')) =
     (State_insert (State_insert State_init (MetadataRootV ''fabric'')) (OtherV 0 0),
      Some (TaskError 0)) \<and>
   install hash_order example_execute failing_installer =
     ([On_task_begin 3 fabric_task, On_task_begin 5 fabric_task, Execute fabric_task,
       On_task_end 3 fabric_task, On_task_end 5 fabric_task,
       On_task_begin 3 jar_task, On_task_begin 5 jar_task, Execute jar_task],
      failing_installer\<lparr>state :=
        State_insert (State_insert State_init (MetadataRootV ''fabric'')) (OtherV 0 0)\<rparr>,
      Some (TaskError 0)) \<and>
   all_execute example_execute (tasks complete_installer) (state complete_installer) =
     Some (state (complete_installer\<lparr>state :=
       State_insert State_init (MetadataRootV ''fabric'')\<rparr>))"
proof -
  let ?mid = "State_insert State_init (MetadataRootV ''fabric'')"
  let ?err = "State_insert ?mid (OtherV 0 0)"
  note complete = install_runs_in_order
    [where ex = example_execute and inst = complete_installer and iter = hash_order
       and s' = ?mid]
  from complete install_complete_installer
  have run1: "install hash_order example_execute complete_installer =
      (concat (map (completed_task (hash_order (watchers complete_installer)))
         (tasks complete_installer)),
       complete_installer\<lparr>state := ?mid\<rparr>, None)"
    by blast
  note failing = install_runs_in_order
    [where ex = example_execute and inst = failing_installer and iter = hash_order
       and finished = "[fabric_task]" and t = jar_task and rest = "[metadata_task]"
       and s_mid = ?mid and s_err = ?err and e = "TaskError 0"]
  from failing install_failing_installer
  have run2: "install hash_order example_execute failing_installer =
      (concat (map (completed_task (hash_order (watchers failing_installer))) [fabric_task])
         @ failed_task (hash_order (watchers failing_installer)) jar_task,
       failing_installer\<lparr>state := ?err\<rparr>, Some (TaskError 0))"
    by blast
  note returned = install_runs_in_order
    [where ex = example_execute and inst = complete_installer and iter = hash_order
       and tr = "concat (map (completed_task (hash_order (watchers complete_installer)))
         (tasks complete_installer))"
       and inst' = "complete_installer\<lparr>state := ?mid\<rparr>" and r = None]
  from returned run1
  have run3: "all_execute example_execute (tasks complete_installer) (state complete_installer) =
     Some (state (complete_installer\<lparr>state := ?mid\<rparr>))"
    by blast
  from install_complete_installer install_failing_installer run1 run2 run3
  show ?thesis
    unfolding example_traces by blast
qed




text \<open>
  C2 claims that \<^verbatim>\<open>install\<close> hands the state and the watcher to \<^verbatim>\<open>execute\<close>, and
  that \<^verbatim>\<open>Watcher.on_event\<close> receives the event. In \<^verbatim>\<open>task.py\<close>, \<^verbatim>\<open>install\<close> calls
  \<^verbatim>\<open>task.execute(self._state)\<close>: on an installer that holds a
  \<^verbatim>\<open>FabricInitTask\<close>, whose \<^verbatim>\<open>execute\<close> requires the watcher, the run ends with
  \<^verbatim>\<open>TypeError\<close> at that task, the state untouched, and so for every method
  declared with a watcher. The \<^verbatim>\<open>on_event\<close> of the base class has no parameter for the
  event: called with one it raises \<^verbatim>\<open>TypeError\<close>, as it does when
  \<^verbatim>\<open>FabricInitTask.execute\<close> is handed a base \<^verbatim>\<open>Watcher\<close>.
\<close>

theorem install_calls_execute_with_state_only:
  "install hash_order (portablemc_execute http_fixed :: task \<Rightarrow> unit execute_method)
       fabric_installer =
     ([On_task_begin 1 fabric_task, Execute fabric_task], fabric_installer, Some TypeError) \<and>
   call_execute (Execute_state_watcher g) s = (s, Some TypeError) \<and>
   Watcher_on_event [ev] = Some TypeError \<and>
   FabricInitTask_execute http_fixed (Watcher_on_event :: unit on_event)
       (state fabric_installer) =
     (state fabric_installer, [FabricResolveEvent FABRIC_API ''1.20.1'' (Some ''0.14.21'')],
      Some TypeError)"
proof -
  have run: "install hash_order (portablemc_execute http_fixed :: task \<Rightarrow> unit execute_method)
       fabric_installer =
     ([On_task_begin 1 fabric_task, Execute fabric_task], fabric_installer, Some TypeError)"
    by (simp add: install_def fabric_installer_def hash_order_def portablemc_execute_def
        call_execute_def fabric_task_def notify_begin_def)
  have body: "FabricInitTask_execute http_fixed (Watcher_on_event :: unit on_event)
       (state fabric_installer) =
     (state fabric_installer, [FabricResolveEvent FABRIC_API ''1.20.1'' (Some ''0.14.21'')],
      Some TypeError)"
    by (simp add: FabricInitTask_execute_def fabric_installer_def state_ready_def State_get_def
        State_insert_def State_init_def dict_get_def root_1_20_1_def Watcher_on_event_def Let_def)
  show ?thesis
    using run body by (simp add: call_execute_def Watcher_on_event_def)
qed

end
